theory Spec2Isabelle
  imports Main "HOL-Library.Sublist" "HOL-Library.Multiset" "HOL-Library.Word"
begin

section \<open>Go values used by pkg/engine/engine.go\<close>

text \<open>
  Strings are byte sequences (\<open>char list\<close>). Go's \<open>int\<close> is modelled as \<open>int\<close>: the
  integers of this file are VM counts, port numbers and list indices, far from the 64-bit
  bounds. A function that can panic returns \<open>Panics\<close>; a function with an \<open>error\<close>
  result returns a sum whose left side is the error.
\<close>

datatype error =
    Errorf string          \<comment> \<open>errors.New, errors.Errorf: the formatted message\<close>
  | Wrap error string      \<comment> \<open>errors.Wrap, errors.Wrapf: cause and message\<close>
  | External string        \<comment> \<open>an error made by a library (transport, reader)\<close>

fun Error :: "error \<Rightarrow> string" where
  "Error (Errorf m) = m"
| "Error (External m) = m"
| "Error (Wrap e m) = m @ '': '' @ Error e"

datatype 'a go = Returns 'a | Panics string

definition nilDereference :: string where
  "nilDereference = ''runtime error: invalid memory address or nil pointer dereference''"

subsection \<open>fmt verb \<open>%d\<close> and strconv.Itoa\<close>

definition digit :: "nat \<Rightarrow> char" where
  "digit n = char_of (48 + n)"

function decimal :: "nat \<Rightarrow> string" where
  "decimal n = (if n < 10 then [digit n] else decimal (n div 10) @ [digit (n mod 10)])"
  by pat_completeness auto
termination
  by (relation "measure id") auto

declare decimal.simps [simp del]

definition itoa :: "int \<Rightarrow> string" where
  "itoa i = (if i < 0 then CHR ''-'' # decimal (nat (- i)) else decimal (nat i))"

section \<open>The cluster specification (pkg/api), as far as the engine reads it\<close>

text \<open>
  Field \<open>F\<close> of the Go struct \<open>T\<close> is the record field \<open>t_F\<close>. A pointer field that the
  engine tests against nil or dereferences is an \<open>option\<close>; the elements of the pool and
  extension-profile slices are taken to be non-nil.
\<close>

record Extension =
  ext_Name :: string
  ext_SingleOrAll :: string

record ExtensionProfile =
  ep_Name :: string
  ep_Version :: string
  ep_RootURL :: string
  ep_Script :: string
  ep_URLQuery :: string

type_synonym OSType = string

record MasterProfile =
  mp_Count :: int
  mp_DNSPrefix :: string
  mp_Subnet :: string
  mp_FirstConsecutiveStaticIP :: string
  mp_Extensions :: "Extension list"

record AgentPoolProfile =
  ap_Name :: string
  ap_Count :: int
  ap_OSType :: OSType
  ap_AvailabilityProfile :: string
  ap_Subnet :: string
  ap_Extensions :: "Extension list"

record PrivateCluster =
  pc_Enabled :: "bool option"

record KubernetesConfig =
  kc_PrivateCluster :: "PrivateCluster option"

record OrchestratorProfile =
  op_OrchestratorType :: string
  op_KubernetesConfig :: "KubernetesConfig option"

record CertificateProfile =
  cp_CaCertificate :: string
  cp_KubeConfigCertificate :: string
  cp_KubeConfigPrivateKey :: string

record AADProfile =
  aad_ClientAppID :: string
  aad_ServerAppID :: string
  aad_TenantID :: string

record Properties =
  p_OrchestratorProfile :: "OrchestratorProfile option"
  p_MasterProfile :: "MasterProfile option"
  p_AgentPoolProfiles :: "AgentPoolProfile list"
  p_ExtensionProfiles :: "ExtensionProfile list"
  p_CertificateProfile :: "CertificateProfile option"
  p_AADProfile :: "AADProfile option"


section \<open>Network topology: getVNETAddressPrefixes\<close>

text \<open>
  The loop of getVNETAddressPrefixes over the agent pools. \<open>visitedSubnets\<close> is the Go
  map, \<open>buf\<close> the bytes.Buffer. The loop body looks the pool's subnet up and writes the
  entry when it is absent; it does not store into the map.
\<close>

fun getVNETAddressPrefixes_loop ::
  "(string \<rightharpoonup> bool) \<Rightarrow> string \<Rightarrow> AgentPoolProfile list \<Rightarrow> string" where
  \<open>getVNETAddressPrefixes_loop visitedSubnets buf [] = buf\<close>
| \<open>getVNETAddressPrefixes_loop visitedSubnets buf (profile # rest) =
     (if visitedSubnets (ap_Subnet profile) = None
      then getVNETAddressPrefixes_loop visitedSubnets
             (buf @ '',\<newline>''
                  @ ''            "[variables('' @ CHR 0x27 # ap_Name profile @ ''Subnet')]"'')
             rest
      else getVNETAddressPrefixes_loop visitedSubnets buf rest)\<close>

definition getVNETAddressPrefixes :: "Properties \<Rightarrow> string go" where
  \<open>getVNETAddressPrefixes properties =
     (let visitedSubnets = Map.empty;
          buf = ''"[variables('masterSubnet')]"''
      in case p_MasterProfile properties of
           None \<Rightarrow> Panics nilDereference
         | Some masterProfile \<Rightarrow>
             Returns (getVNETAddressPrefixes_loop
                        (visitedSubnets(mp_Subnet masterProfile \<mapsto> True))
                        buf (p_AgentPoolProfiles properties)))\<close>

definition addressPrefixEntry :: "string \<Rightarrow> string" where
  \<open>addressPrefixEntry name =
     '',\<newline>'' @ ''            "[variables('' @ CHR 0x27 # name @ ''Subnet')]"''\<close>

lemma getVNETAddressPrefixes_loop_filter:
  "getVNETAddressPrefixes_loop visited buf pools =
     buf @ concat (map (\<lambda>p. addressPrefixEntry (ap_Name p))
                       (filter (\<lambda>p. visited (ap_Subnet p) = None) pools))"
  by (induction pools arbitrary: buf) (simp_all add: addressPrefixEntry_def)

text \<open>
  What the code computes: the master entry, then one entry for every agent pool whose
  subnet differs from the master's, in pool order. Pools sharing a subnet each get one.
\<close>

lemma getVNETAddressPrefixes_eq:
  \<open>p_MasterProfile properties = Some masterProfile \<Longrightarrow>
   getVNETAddressPrefixes properties =
     Returns (''"[variables('masterSubnet')]"''
              @ concat (map (\<lambda>p. addressPrefixEntry (ap_Name p))
                            (filter (\<lambda>p. ap_Subnet p \<noteq> mp_Subnet masterProfile)
                                    (p_AgentPoolProfiles properties))))\<close>
  by (simp add: getVNETAddressPrefixes_def getVNETAddressPrefixes_loop_filter)

definition sharedSubnetCluster :: Properties where
  "sharedSubnetCluster =
     \<lparr> p_OrchestratorProfile = None,
       p_MasterProfile = Some \<lparr> mp_Count = 1, mp_DNSPrefix = ''dns'',
                                mp_Subnet = ''10.0.0.0/24'',
                                mp_FirstConsecutiveStaticIP = ''10.0.0.4'',
                                mp_Extensions = [] \<rparr>,
       p_AgentPoolProfiles =
         [ \<lparr> ap_Name = ''a'', ap_Count = 1, ap_OSType = ''Linux'',
             ap_AvailabilityProfile = ''AvailabilitySet'',
             ap_Subnet = ''10.1.0.0/24'', ap_Extensions = [] \<rparr>,
           \<lparr> ap_Name = ''b'', ap_Count = 1, ap_OSType = ''Linux'',
             ap_AvailabilityProfile = ''AvailabilitySet'',
             ap_Subnet = ''10.1.0.0/24'', ap_Extensions = [] \<rparr> ],
       p_ExtensionProfiles = [],
       p_CertificateProfile = None,
       p_AADProfile = None \<rparr>"

text \<open>
  C1. The claim: the address-prefix fragment holds the master entry first and at most one
  entry per distinct agent-pool subnet, a second pool with the same subnet adding nothing.
  On the code, two pools \<open>a\<close> and \<open>b\<close> that share the subnet 10.1.0.0/24 (different from
  the master's) both add an entry: the map of visited subnets is never extended in the
  loop.
\<close>

theorem getVNETAddressPrefixes_shared_subnet:
  \<open>getVNETAddressPrefixes sharedSubnetCluster =
     Returns (''"[variables('masterSubnet')]"''
              @ '',\<newline>            "[variables('aSubnet')]"''
              @ '',\<newline>            "[variables('bSubnet')]"'')\<close>
  by (simp add: getVNETAddressPrefixes_def sharedSubnetCluster_def)

section \<open>Network topology: security rules\<close>

definition securityRuleFormat :: "int \<Rightarrow> int \<Rightarrow> int \<Rightarrow> int \<Rightarrow> string" where
  \<comment> \<open>the format string of getSecurityRule with its four \<open>%d\<close> verbs filled in\<close>
  \<open>securityRuleFormat a b c d =
        ''          {\<newline>''
      @ ''            "name": "Allow_'' @ itoa a @ ''",\<newline>''
      @ ''            "properties": {\<newline>''
      @ ''              "access": "Allow",\<newline>''
      @ ''              "description": "Allow traffic from the Internet to port '' @ itoa b @ ''",\<newline>''
      @ ''              "destinationAddressPrefix": "*",\<newline>''
      @ ''              "destinationPortRange": "'' @ itoa c @ ''",\<newline>''
      @ ''              "direction": "Inbound",\<newline>''
      @ ''              "priority": '' @ itoa d @ '',\<newline>''
      @ ''              "protocol": "*",\<newline>''
      @ ''              "sourceAddressPrefix": "Internet",\<newline>''
      @ ''              "sourcePortRange": "*"\<newline>''
      @ ''            }\<newline>''
      @ ''          }''\<close>

definition getSecurityRule :: "int \<Rightarrow> int \<Rightarrow> string" where
  "getSecurityRule port portIndex =
     (let BaseLBPriority = 200
      in securityRuleFormat port port port (BaseLBPriority + portIndex))"

fun getSecurityRules_loop :: "string \<Rightarrow> int \<Rightarrow> int list \<Rightarrow> string" where
  "getSecurityRules_loop buf index [] = buf"
| "getSecurityRules_loop buf index (port # ports) =
     getSecurityRules_loop
       ((if index > 0 then buf @ '',\<newline>'' else buf) @ getSecurityRule port index)
       (index + 1) ports"

definition getSecurityRules :: "int list \<Rightarrow> string" where
  "getSecurityRules ports = getSecurityRules_loop [] 0 ports"

lemma getSecurityRules_loop_eq:
  "getSecurityRules_loop buf index ports =
     buf @ concat (map (\<lambda>i. (if 0 < index + int i then '',\<newline>'' else [])
                              @ getSecurityRule (ports ! i) (index + int i))
                       [0..<length ports])"
proof (induction ports arbitrary: buf index)
  case Nil
  show ?case by simp
next
  case (Cons port ports)
  have upt: "[0..<length (port # ports)] = 0 # map Suc [0..<length ports]"
    by (simp add: upt_conv_Cons map_Suc_upt del: upt_Suc)
  show ?case
    unfolding upt
    by (simp add: Cons.IH o_def add.assoc del: upt_Suc)
qed

lemma sublist_priority:
  \<open>sublist (''"priority": '' @ itoa d @ '','') (securityRuleFormat a b c d)\<close>
proof -
  have "\<exists>ps ss. securityRuleFormat a b c d = ps @ (''\"priority\": '' @ itoa d @ '','') @ ss"
    unfolding securityRuleFormat_def
    apply (rule exI [of _ "''          {\<newline>''
      @ ''            \"name\": \"Allow_'' @ itoa a @ ''\",\<newline>''
      @ ''            \"properties\": {\<newline>''
      @ ''              \"access\": \"Allow\",\<newline>''
      @ ''              \"description\": \"Allow traffic from the Internet to port '' @ itoa b @ ''\",\<newline>''
      @ ''              \"destinationAddressPrefix\": \"*\",\<newline>''
      @ ''              \"destinationPortRange\": \"'' @ itoa c @ ''\",\<newline>''
      @ ''              \"direction\": \"Inbound\",\<newline>''
      @ ''              ''"])
    apply (rule exI [of _ "''\<newline>''
      @ ''              \"protocol\": \"*\",\<newline>''
      @ ''              \"sourceAddressPrefix\": \"Internet\",\<newline>''
      @ ''              \"sourcePortRange\": \"*\"\<newline>''
      @ ''            }\<newline>''
      @ ''          }''"])
    apply simp
    done
  then show ?thesis by (simp add: sublist_def)
qed

text \<open>
  C4. For every port list, getSecurityRules emits the rules in port order, separated by
  a comma and a newline, and the rule of the port at zero-based index \<open>i\<close> is the rule
  text with priority \<open>200 + i\<close>: the text holds \<open>"priority": 200+i,\<close>. So the priority is
  200 at index 0 and strictly increasing with the index.
\<close>

theorem getSecurityRules_priority:
  \<open>getSecurityRules ports =
     concat (map (\<lambda>i. (if 0 < i then '',\<newline>'' else [])
                       @ securityRuleFormat (ports ! i) (ports ! i) (ports ! i) (200 + int i))
                 [0..<length ports])
   \<and> (\<forall>i < length ports.
         getSecurityRule (ports ! i) (int i)
           = securityRuleFormat (ports ! i) (ports ! i) (ports ! i) (200 + int i)
         \<and> sublist (''"priority": '' @ itoa (200 + int i) @ '','')
                    (getSecurityRule (ports ! i) (int i))
         \<and> (\<forall>j < i. 200 + int j < 200 + int i))
   \<and> (ports \<noteq> [] \<longrightarrow> prefix (getSecurityRule (ports ! 0) 0) (getSecurityRules ports)
        \<and> getSecurityRule (ports ! 0) 0
             = securityRuleFormat (ports ! 0) (ports ! 0) (ports ! 0) 200)\<close>
proof (intro conjI allI impI)
  show \<open>getSecurityRules ports =
     concat (map (\<lambda>i. (if 0 < i then '',\<newline>'' else [])
                       @ securityRuleFormat (ports ! i) (ports ! i) (ports ! i) (200 + int i))
                 [0..<length ports])\<close>
    by (simp add: getSecurityRules_def getSecurityRules_loop_eq getSecurityRule_def)
next
  fix i assume "i < length ports"
  show "getSecurityRule (ports ! i) (int i)
           = securityRuleFormat (ports ! i) (ports ! i) (ports ! i) (200 + int i)"
    by (simp add: getSecurityRule_def)
  show \<open>sublist (''"priority": '' @ itoa (200 + int i) @ '','')
                    (getSecurityRule (ports ! i) (int i))\<close>
    using sublist_priority [of "200 + int i"] by (simp add: getSecurityRule_def)
  fix j assume "j < i"
  then show "200 + int j < 200 + int i" by simp
next
  assume ne: "ports \<noteq> []"
  then obtain p ps where ports: "ports = p # ps" by (cases ports) auto
  show "prefix (getSecurityRule (ports ! 0) 0) (getSecurityRules ports)"
    by (simp add: ports getSecurityRules_def getSecurityRules_loop_eq [of _ 1])
  show "getSecurityRule (ports ! 0) 0
             = securityRuleFormat (ports ! 0) (ports ! 0) (ports ! 0) 200"
    by (simp add: getSecurityRule_def)
qed

theorem getSecurityRules_priority_witness:
  \<open>getSecurityRules [80, 443] =
       securityRuleFormat 80 80 80 200 @ '',\<newline>'' @ securityRuleFormat 443 443 443 201
   \<and> sublist ''"priority": 200,'' (getSecurityRule 80 0)
   \<and> sublist ''"priority": 201,'' (getSecurityRule 443 1)
   \<and> prefix (getSecurityRule 80 0) (getSecurityRules [80, 443])\<close>
proof -
  have d: "itoa 200 = ''200''" "itoa 201 = ''201''"
    by code_simp+
  have u: "[0..<length [80, 443 :: int]] = [0, 1]"
    by (simp add: upt_conv_Cons)
  note t = getSecurityRules_priority [of "[80, 443]", unfolded u]
  have a: \<open>getSecurityRules [80, 443] =
       securityRuleFormat 80 80 80 200 @ '',\<newline>'' @ securityRuleFormat 443 443 443 201\<close>
    using t by simp
  have b: \<open>sublist ''"priority": 200,'' (getSecurityRule 80 0)\<close>
    using t [THEN conjunct2, THEN conjunct1, rule_format, of 0] d by auto
  have c: \<open>sublist ''"priority": 201,'' (getSecurityRule 443 1)\<close>
    using t [THEN conjunct2, THEN conjunct1, rule_format, of 1] d by auto
  have e: "prefix (getSecurityRule 80 0) (getSecurityRules [80, 443])"
    using t [THEN conjunct2, THEN conjunct2] by auto
  from a b c e show ?thesis by blast
qed

section \<open>Network topology: Windows pod-CIDR subnets\<close>





















definition oneMaster :: MasterProfile where
  "oneMaster = \<lparr> mp_Count = 1, mp_DNSPrefix = ''dns'', mp_Subnet = ''10.0.0.0/24'',
                  mp_FirstConsecutiveStaticIP = ''10.0.0.4'', mp_Extensions = [] \<rparr>"



section \<open>Extension names: opt-in test and catalog lookup\<close>

text \<open>
  strings.EqualFold, on bytes: two strings are equal under folding when they have the same
  length and agree up to the case of the ASCII letters. This is Go's function on ASCII
  operands; Go folds some non-ASCII runes too, which a byte model does not see.
\<close>

definition toLower :: "char \<Rightarrow> char" where
  "toLower c =
     (let b = of_char c :: nat
      in if 65 \<le> b \<and> b \<le> 90 then char_of (b + 32) else c)"

definition EqualFold :: "string \<Rightarrow> string \<Rightarrow> bool" where
  "EqualFold s t = (map toLower s = map toLower t)"

definition getExtensionURL :: "string \<Rightarrow> string \<Rightarrow> string \<Rightarrow> string \<Rightarrow> string \<Rightarrow> string" where
  "getExtensionURL rootURL extensionName version fileName query =
     (let extensionsDir = ''extensions'';
          url = rootURL @ extensionsDir @ ''/'' @ extensionName @ ''/'' @ version @ ''/'' @ fileName
      in if query \<noteq> [] then url @ ''?'' @ query else url)"

fun validateProfileOptedForExtension :: "string \<Rightarrow> Extension list \<Rightarrow> bool \<times> string" where
  "validateProfileOptedForExtension extensionName [] = (False, [])"
| "validateProfileOptedForExtension extensionName (extension # profileExtensions) =
     (if extensionName = ext_Name extension then (True, ext_SingleOrAll extension)
      else validateProfileOptedForExtension extensionName profileExtensions)"

text \<open>
  The lookup loop shared by makeExtensionScriptCommands and
  makeWindowsExtensionScriptCommands: the first profile whose name folds to the
  extension's name; \<open>None\<close> is the nil pointer left when the loop finds none.
\<close>

fun findExtensionProfile :: "string \<Rightarrow> ExtensionProfile list \<Rightarrow> ExtensionProfile option" where
  "findExtensionProfile name [] = None"
| "findExtensionProfile name (eP # extensionProfiles) =
     (if EqualFold (ep_Name eP) name then Some eP
      else findExtensionProfile name extensionProfiles)"



definition helloWorldProfile :: ExtensionProfile where
  "helloWorldProfile =
     \<lparr> ep_Name = ''hello-world'', ep_Version = ''v1'',
       ep_RootURL = ''https://example.test/'', ep_Script = ''hello.sh'', ep_URLQuery = [] \<rparr>"



lemma validateProfileOptedForExtension_False:
  "name \<notin> ext_Name ` set exts \<Longrightarrow> validateProfileOptedForExtension name exts = (False, [])"
  by (induction exts) auto


lemma findExtensionProfile_SomeD:
  "findExtensionProfile name eps = Some eP \<Longrightarrow> eP \<in> set eps \<and> EqualFold (ep_Name eP) name"
  by (induction eps) (auto split: if_splits)





section \<open>Extension resolver\<close>

subsection \<open>Library functions: strings.Replace, strings.Contains, strconv.Atoi\<close>

text \<open>
  \<open>replaceAll old new s\<close> scans \<open>s\<close> from the left and replaces every non-overlapping
  occurrence of the non-empty \<open>old\<close>; \<open>Replace s old new\<close> is
  \<open>strings.Replace(s, old, new, -1)\<close>, which for an empty \<open>old\<close> puts \<open>new\<close> in front of
  every character and at the end.
\<close>

function replaceAll :: "string \<Rightarrow> string \<Rightarrow> string \<Rightarrow> string" where
  "replaceAll old new [] = []"
| "replaceAll old new (c # cs) =
     (if old \<noteq> [] \<and> prefix old (c # cs)
      then new @ replaceAll old new (drop (length old) (c # cs))
      else c # replaceAll old new cs)"
  by pat_completeness auto
termination
  by (relation "measure (\<lambda>(old, new, s). length s)") (auto simp: neq_Nil_conv)

definition Replace :: "string \<Rightarrow> string \<Rightarrow> string \<Rightarrow> string" where
  "Replace s old new =
     (if old = [] then new @ concat (map (\<lambda>c. c # new) s) else replaceAll old new s)"

fun Contains :: "string \<Rightarrow> string \<Rightarrow> bool" where
  "Contains [] substr = (substr = [])"
| "Contains (c # cs) substr = (prefix substr (c # cs) \<or> Contains cs substr)"

definition isDigit :: "char \<Rightarrow> bool" where
  "isDigit c = (48 \<le> (of_char c :: nat) \<and> (of_char c :: nat) \<le> 57)"

fun digitsValue :: "nat \<Rightarrow> string \<Rightarrow> nat option" where
  "digitsValue n [] = Some n"
| "digitsValue n (c # cs) =
     (if isDigit c then digitsValue (n * 10 + (of_char c - 48)) cs else None)"

text \<open>
  strconv.Atoi: an optional sign, then one or more decimal digits, the value within the
  64-bit range; anything else is an error (\<open>None\<close>).
\<close>

definition Atoi :: "string \<Rightarrow> int option" where
  "Atoi s =
     (case s of
        [] \<Rightarrow> None
      | c # cs \<Rightarrow>
          (let neg = (c = CHR ''-'');
               ds = (if c = CHR ''-'' \<or> c = CHR ''+'' then cs else s)
           in if ds = [] then None
              else (case digitsValue 0 ds of
                      None \<Rightarrow> None
                    | Some n \<Rightarrow>
                        (let v = (if neg then - int n else int n)
                         in if - (2 ^ 63) \<le> v \<and> v < 2 ^ 63 then Some v else None))))"

subsection \<open>The remote endpoint\<close>

text \<open>
  http.Get is a parameter \<open>httpGet\<close>: it maps the request URL to a transport error or to a
  response with a status code, a status line and a body (whose reading may fail). The
  endpoint's answer to a URL is taken to be the same throughout one call of the engine.
  json.Unmarshal into a slice of strings is the parameter \<open>unmarshal\<close>, \<open>None\<close> when the
  bytes do not decode.
\<close>

record Response =
  StatusCode :: int
  Status :: string
  Body :: "error + string"

type_synonym httpGet = "string \<Rightarrow> error + Response"
type_synonym unmarshal = "string \<Rightarrow> string list option"

definition getExtensionResource ::
  "httpGet \<Rightarrow> string \<Rightarrow> string \<Rightarrow> string \<Rightarrow> string \<Rightarrow> string \<Rightarrow> error + string" where
  "getExtensionResource httpGet rootURL extensionName version fileName query =
     (let requestURL = getExtensionURL rootURL extensionName version fileName query
      in case httpGet requestURL of
           Inl err \<Rightarrow>
             Inl (Wrap err (''Unable to GET extension resource for extension: '' @ extensionName
                            @ '' with version '' @ version @ '' with filename '' @ fileName
                            @ '' at URL: '' @ requestURL))
         | Inr res \<Rightarrow>
             if StatusCode res \<noteq> 200
             then Inl (Errorf (''Unable to GET extension resource for extension: '' @ extensionName
                               @ '' with version '' @ version @ '' with filename '' @ fileName
                               @ '' at URL: '' @ requestURL
                               @ '' StatusCode: '' @ itoa (StatusCode res)
                               @ '': Status: '' @ Status res))
             else (case Body res of
                     Inl err \<Rightarrow>
                       Inl (Wrap err (''Unable to GET extension resource for extension: ''
                                      @ extensionName @ '' with version '' @ version
                                      @ ''  with filename '' @ fileName
                                      @ '' at URL: '' @ requestURL))
                   | Inr body \<Rightarrow> Inr body))"

fun stringInSlice :: "string \<Rightarrow> string list \<Rightarrow> bool" where
  "stringInSlice a [] = False"
| "stringInSlice a (b # list) = (if b = a then True else stringInSlice a list)"

text \<open>orchestratorSupportsExtension returns the pair (bool, error); nil is \<open>None\<close>.\<close>

definition orchestratorSupportsExtension ::
  "httpGet \<Rightarrow> unmarshal \<Rightarrow> string \<Rightarrow> string \<Rightarrow> string \<Rightarrow> string \<Rightarrow> string
     \<Rightarrow> bool \<times> error option" where
  "orchestratorSupportsExtension httpGet unmarshal rootURL orchestrator extensionName version query =
     (case getExtensionResource httpGet rootURL extensionName version
             ''supported-orchestrators.json'' query of
        Inl err \<Rightarrow> (False, Some err)
      | Inr orchestratorBytes \<Rightarrow>
          (case unmarshal orchestratorBytes of
             None \<Rightarrow>
               (False, Some (Errorf (''Unable to parse supported-orchestrators.json for Extension ''
                                     @ extensionName @ '' Version '' @ version)))
           | Some supportedOrchestrators \<Rightarrow>
               if \<not> stringInSlice orchestrator supportedOrchestrators
               then (False, Some (Errorf (''Orchestrator: '' @ orchestrator
                                          @ '' not in list of supported orchestrators for Extension: ''
                                          @ extensionName @ '' Version '' @ version)))
               else (True, None)))"

text \<open>errors.Wrap of a nil error is nil, so the first return would be \<open>("", nil)\<close> then.\<close>

definition getLinkedTemplateTextForURL ::
  "httpGet \<Rightarrow> unmarshal \<Rightarrow> string \<Rightarrow> string \<Rightarrow> string \<Rightarrow> string \<Rightarrow> string
     \<Rightarrow> error + string" where
  "getLinkedTemplateTextForURL httpGet unmarshal rootURL orchestrator extensionName version query =
     (case orchestratorSupportsExtension httpGet unmarshal rootURL orchestrator
             extensionName version query of
        (supportsExtension, err) \<Rightarrow>
          if \<not> supportsExtension
          then (case err of
                  None \<Rightarrow> Inr []
                | Some e \<Rightarrow> Inl (Wrap e ''Extension not supported for orchestrator''))
          else getExtensionResource httpGet rootURL extensionName version
                 ''template-link.json'' query)"

definition internalGetPoolLinkedTemplateText ::
  "httpGet \<Rightarrow> unmarshal \<Rightarrow> string \<Rightarrow> string \<Rightarrow> string \<Rightarrow> string \<Rightarrow> ExtensionProfile
     \<Rightarrow> error + string" where
  \<open>internalGetPoolLinkedTemplateText httpGet unmarshal extTargetVMNamePrefix orchestratorType
       loopCount loopOffset extensionProfile =
     (case getLinkedTemplateTextForURL httpGet unmarshal (ep_RootURL extensionProfile)
             orchestratorType (ep_Name extensionProfile) (ep_Version extensionProfile)
             (ep_URLQuery extensionProfile) of
        Inl e \<Rightarrow> Inl e
      | Inr dta \<Rightarrow>
          (let dta = (if Contains extTargetVMNamePrefix ''master''
                      then Replace dta ''EXTENSION_TARGET_VM_TYPE'' ''master''
                      else Replace dta ''EXTENSION_TARGET_VM_TYPE'' ''agent'');
               extensionsParameterReference =
                 ''[parameters('' @ [CHR 0x27] @ ep_Name extensionProfile @ ''Parameters')]'';
               dta = Replace dta ''EXTENSION_PARAMETERS_REPLACE'' extensionsParameterReference;
               dta = Replace dta ''EXTENSION_URL_REPLACE'' (ep_RootURL extensionProfile);
               dta = Replace dta ''EXTENSION_TARGET_VM_NAME_PREFIX'' extTargetVMNamePrefix;
               dta = (if Atoi loopCount \<noteq> None
                      then Replace dta ''"EXTENSION_LOOP_COUNT"'' loopCount
                      else Replace dta ''EXTENSION_LOOP_COUNT'' loopCount);
               dta = Replace dta ''EXTENSION_LOOP_OFFSET'' loopOffset
           in Inr dta))\<close>

definition getMasterLinkedTemplateText ::
  "httpGet \<Rightarrow> unmarshal \<Rightarrow> MasterProfile \<Rightarrow> string \<Rightarrow> ExtensionProfile \<Rightarrow> string
     \<Rightarrow> error + string" where
  "getMasterLinkedTemplateText httpGet unmarshal masterProfile orchestratorType
       extensionProfile singleOrAll =
     (let extTargetVMNamePrefix = ''variables('masterVMNamePrefix')'';
          loopCount = ''[sub(variables('masterCount'), variables('masterOffset'))]'';
          loopOffset = ''variables('masterOffset')'';
          loopCount = (if EqualFold singleOrAll ''single'' then ''1'' else loopCount)
      in internalGetPoolLinkedTemplateText httpGet unmarshal extTargetVMNamePrefix
           orchestratorType loopCount loopOffset extensionProfile)"

definition AvailabilitySet :: string where
  \<comment> \<open>Modelled from the spec: the constant api.AvailabilitySet, the availability mode of an
      availability-set pool; its declaration is in pkg/api, not among the sources.\<close>
  "AvailabilitySet = ''AvailabilitySet''"

definition IsAvailabilitySets :: "AgentPoolProfile \<Rightarrow> bool" where
  \<comment> \<open>Modelled from the spec: the method AgentPoolProfile.IsAvailabilitySets of pkg/api
      (not among the sources): the pool's availability mode is availability-set.\<close>
  "IsAvailabilitySets a = (ap_AvailabilityProfile a = AvailabilitySet)"

definition getAgentPoolLinkedTemplateText ::
  "httpGet \<Rightarrow> unmarshal \<Rightarrow> AgentPoolProfile \<Rightarrow> string \<Rightarrow> ExtensionProfile \<Rightarrow> string
     \<Rightarrow> error + string" where
  "getAgentPoolLinkedTemplateText httpGet unmarshal agentPoolProfile orchestratorType
       extensionProfile singleOrAll =
     (let extTargetVMNamePrefix =
            ''variables('' @ [CHR 0x27] @ ap_Name agentPoolProfile @ ''VMNamePrefix')'';
          loopCount = ''[variables('' @ [CHR 0x27] @ ap_Name agentPoolProfile @ ''Count'))]'';
          loopOffset = [];
          loopCount = (if IsAvailabilitySets agentPoolProfile
                       then ''[sub(variables('' @ [CHR 0x27] @ ap_Name agentPoolProfile
                            @ ''Count'), variables('' @ [CHR 0x27] @ ap_Name agentPoolProfile
                            @ ''Offset'))]''
                       else loopCount);
          loopOffset = (if IsAvailabilitySets agentPoolProfile
                        then ''variables('' @ [CHR 0x27] @ ap_Name agentPoolProfile @ ''Offset')''
                        else loopOffset);
          loopCount = (if EqualFold singleOrAll ''single'' then ''1'' else loopCount)
      in internalGetPoolLinkedTemplateText httpGet unmarshal extTargetVMNamePrefix
           orchestratorType loopCount loopOffset extensionProfile)"

text \<open>
  The loops of getLinkedTemplatesForExtensions. \<open>Inr result\<close> is the string built so
  far; \<open>Inl line\<close> is the early \<open>return ""\<close>, carrying the line that fmt.Println wrote.
\<close>

fun getLinkedTemplatesForExtensions_pools ::
  "httpGet \<Rightarrow> unmarshal \<Rightarrow> string \<Rightarrow> ExtensionProfile \<Rightarrow> string \<Rightarrow> AgentPoolProfile list
     \<Rightarrow> string + string" where
  "getLinkedTemplatesForExtensions_pools httpGet unmarshal orchestratorType extensionProfile
       result [] = Inr result"
| "getLinkedTemplatesForExtensions_pools httpGet unmarshal orchestratorType extensionProfile
       result (agentPoolProfile # rest) =
     (case validateProfileOptedForExtension (ep_Name extensionProfile)
             (ap_Extensions agentPoolProfile) of
        (poolOptedForExtension, singleOrAll) \<Rightarrow>
          if poolOptedForExtension
          then (case getAgentPoolLinkedTemplateText httpGet unmarshal agentPoolProfile
                       orchestratorType extensionProfile singleOrAll of
                  Inl e \<Rightarrow> Inl (Error e)
                | Inr dta \<Rightarrow>
                    getLinkedTemplatesForExtensions_pools httpGet unmarshal orchestratorType
                      extensionProfile ((result @ '','') @ dta) rest)
          else getLinkedTemplatesForExtensions_pools httpGet unmarshal orchestratorType
                 extensionProfile result rest)"

fun getLinkedTemplatesForExtensions_loop ::
  "httpGet \<Rightarrow> unmarshal \<Rightarrow> MasterProfile \<Rightarrow> AgentPoolProfile list \<Rightarrow> string \<Rightarrow> string
     \<Rightarrow> ExtensionProfile list \<Rightarrow> string + string" where
  "getLinkedTemplatesForExtensions_loop httpGet unmarshal masterProfile pools orchestratorType
       result [] = Inr result"
| "getLinkedTemplatesForExtensions_loop httpGet unmarshal masterProfile pools orchestratorType
       result (extensionProfile # rest) =
     (case validateProfileOptedForExtension (ep_Name extensionProfile)
             (mp_Extensions masterProfile) of
        (masterOptedForExtension, singleOrAll) \<Rightarrow>
          (case (if masterOptedForExtension
                 then (case getMasterLinkedTemplateText httpGet unmarshal masterProfile
                              orchestratorType extensionProfile singleOrAll of
                         Inl e \<Rightarrow> Inl (Error e)
                       | Inr dta \<Rightarrow> Inr ((result @ '','') @ dta))
                 else Inr result) of
             Inl line \<Rightarrow> Inl line
           | Inr result \<Rightarrow>
               (case getLinkedTemplatesForExtensions_pools httpGet unmarshal orchestratorType
                       extensionProfile result pools of
                  Inl line \<Rightarrow> Inl line
                | Inr result \<Rightarrow>
                    getLinkedTemplatesForExtensions_loop httpGet unmarshal masterProfile pools
                      orchestratorType result rest)))"

text \<open>
  getLinkedTemplatesForExtensions returns a string only. The model returns the lines
  written to standard output together with that string: the caller receives the second
  component.
\<close>

definition getLinkedTemplatesForExtensions ::
  "httpGet \<Rightarrow> unmarshal \<Rightarrow> Properties \<Rightarrow> (string list \<times> string) go" where
  "getLinkedTemplatesForExtensions httpGet unmarshal properties =
     (case p_MasterProfile properties of
        None \<Rightarrow> Panics nilDereference
      | Some masterProfile \<Rightarrow>
          (case p_OrchestratorProfile properties of
             None \<Rightarrow> Panics nilDereference
           | Some orchestratorProfile \<Rightarrow>
               (case getLinkedTemplatesForExtensions_loop httpGet unmarshal masterProfile
                       (p_AgentPoolProfiles properties)
                       (op_OrchestratorType orchestratorProfile) []
                       (p_ExtensionProfiles properties) of
                  Inl line \<Rightarrow> Returns ([line], [])
                | Inr result \<Rightarrow> Returns ([], result))))"

subsection \<open>Facts about substrings and replacement\<close>

lemma Contains_iff_sublist: "Contains s substr \<longleftrightarrow> sublist substr s"
  by (induction s) (auto simp: sublist_Cons_right)

lemma replaceAll_no_occurrence:
  "\<not> sublist old s \<Longrightarrow> replaceAll old new s = s"
proof (induction s)
  case Nil
  show ?case by simp
next
  case (Cons c cs)
  from Cons.prems have "\<not> prefix old (c # cs)" and "\<not> sublist old cs"
    by (auto simp: sublist_Cons_right)
  with Cons.IH show ?case by simp
qed

lemma Replace_no_occurrence:
  "\<not> sublist old s \<Longrightarrow> Replace s old new = s"
proof -
  assume n: "\<not> sublist old s"
  then have "old \<noteq> []" by auto
  with n show ?thesis by (simp add: Replace_def replaceAll_no_occurrence)
qed

lemma replaceAll_at_occurrence:
  "old \<noteq> [] \<Longrightarrow> replaceAll old new (old @ post) = new @ replaceAll old new post"
  by (cases old) simp_all

lemma replaceAll_first_occurrence:
  assumes "old \<noteq> []" and "\<not> sublist old (pre @ butlast old)"
  shows "replaceAll old new (pre @ old @ post) = pre @ new @ replaceAll old new post"
  using assms(2)
proof (induction pre)
  case Nil
  show ?case using assms(1) by (simp add: replaceAll_at_occurrence)
next
  case (Cons p ps)
  have no_prefix: "\<not> prefix old (p # ps @ old @ post)"
  proof
    assume pr: "prefix old (p # ps @ old @ post)"
    have "prefix (butlast old) old" by (simp add: prefixeq_butlast)
    then have "prefix ((p # ps) @ butlast old) ((p # ps) @ old @ post)"
      by (metis prefix_prefix same_prefix_prefix)
    moreover have "length old \<le> length ((p # ps) @ butlast old)"
      by simp
    ultimately have "prefix old ((p # ps) @ butlast old)"
      using pr prefix_length_prefix [of old "(p # ps) @ old @ post" "(p # ps) @ butlast old"]
      by simp
    then have "sublist old ((p # ps) @ butlast old)" by (rule prefix_imp_sublist)
    with Cons.prems show False by simp
  qed
  from Cons.prems have "\<not> sublist old (ps @ butlast old)"
    by (simp add: sublist_Cons_right)
  with Cons.IH have "replaceAll old new (ps @ old @ post) = ps @ new @ replaceAll old new post"
    by simp
  with no_prefix show ?case by simp
qed

lemma prefix_before_separator:
  "c \<notin> set old \<Longrightarrow> prefix old (xs @ c # ys) \<Longrightarrow> prefix old xs"
  by (induction xs arbitrary: old) (auto simp: prefix_Cons)

lemma sublist_separator:
  assumes "c \<notin> set old"
  shows "sublist old (xs @ c # ys) \<longleftrightarrow> sublist old xs \<or> sublist old ys"
proof (induction xs)
  case Nil
  have "prefix old (c # ys) \<longleftrightarrow> old = []"
    using assms by (auto simp: prefix_Cons)
  then show ?case by (auto simp: sublist_Cons_right)
next
  case (Cons x xs)
  have "prefix old (x # xs @ c # ys) \<longleftrightarrow> prefix old (x # xs)"
    using prefix_before_separator [OF assms, of "x # xs" ys]
    by (auto intro: prefix_order.trans)
  with Cons show ?case by (auto simp: sublist_Cons_right)
qed

lemma sublist_foreign_middle:
  "set m \<inter> set old = {} \<Longrightarrow> m \<noteq> [] \<Longrightarrow>
   sublist old (xs @ m @ ys) \<longleftrightarrow> sublist old xs \<or> sublist old ys"
proof (induction m arbitrary: xs)
  case Nil
  then show ?case by simp
next
  case (Cons c m)
  then have c: "c \<notin> set old" and m: "set m \<inter> set old = {}" by auto
  show ?case
  proof (cases "m = []")
    case True
    then show ?thesis using sublist_separator [OF c, of xs ys] by simp
  next
    case False
    have "sublist old (xs @ (c # m) @ ys) \<longleftrightarrow> sublist old xs \<or> sublist old (m @ ys)"
      using sublist_separator [OF c, of xs "m @ ys"] by simp
    also have "sublist old (m @ ys) \<longleftrightarrow> sublist old [] \<or> sublist old ys"
      using Cons.IH [OF m False, of "[]"] by simp
    finally show ?thesis by auto
  qed
qed

lemma sublist_closing_separator:
  assumes "c \<notin> set ys" and "sublist (w @ [c]) (xs @ c # ys)"
  shows "sublist w xs"
proof -
  from assms(2) obtain ps ss where eq: "xs @ c # ys = ps @ (w @ [c]) @ ss"
    by (auto simp: sublist_def)
  show ?thesis
  proof (cases "length (ps @ w) \<le> length xs")
    case True
    have "prefix (ps @ w) (xs @ c # ys)" using eq by (simp add: prefix_def)
    moreover have "prefix xs (xs @ c # ys)" by simp
    ultimately have "prefix (ps @ w) xs"
      using True prefix_length_prefix by blast
    then show ?thesis by (auto simp: prefix_def)
  next
    case False
    then have gt: "length xs < length (ps @ w)" by simp
    have "(xs @ c # ys) ! length (ps @ w) = c"
      using eq by (simp add: nth_append)
    moreover have "length (ps @ w) < length (xs @ c # ys)"
      using eq by simp
    ultimately have "c \<in> set ys"
      using gt by (auto simp: nth_append nth_Cons split: nat.splits if_splits)
    with assms(1) show ?thesis by simp
  qed
qed

lemma digitsValue_digits:
  "digitsValue n ds = Some m \<Longrightarrow> \<forall>c \<in> set ds. isDigit c"
  by (induction ds arbitrary: n) (auto split: if_splits)

lemma Atoi_chars:
  assumes "Atoi s \<noteq> None"
  shows "s \<noteq> []" and "\<forall>c \<in> set s. isDigit c \<or> c = CHR ''-'' \<or> c = CHR ''+''"
proof -
  show "s \<noteq> []" using assms by (auto simp: Atoi_def)
  show "\<forall>c \<in> set s. isDigit c \<or> c = CHR ''-'' \<or> c = CHR ''+''"
    using assms
    by (auto simp: Atoi_def Let_def split: list.splits option.splits if_splits
             dest!: digitsValue_digits)
qed

subsection \<open>The loop-count placeholder\<close>

lemma no_token:
  "sublist ''EXTENSION_'' tok \<Longrightarrow> \<not> sublist ''EXTENSION_'' s \<Longrightarrow> \<not> sublist tok s"
  by (meson sublist_order.order_trans)

lemma tokens_have_prefix:
  "sublist ''EXTENSION_'' ''EXTENSION_TARGET_VM_TYPE''"
  "sublist ''EXTENSION_'' ''EXTENSION_PARAMETERS_REPLACE''"
  "sublist ''EXTENSION_'' ''EXTENSION_URL_REPLACE''"
  "sublist ''EXTENSION_'' ''EXTENSION_TARGET_VM_NAME_PREFIX''"
  "sublist ''EXTENSION_'' ''EXTENSION_LOOP_COUNT''"
  "sublist ''EXTENSION_'' ''EXTENSION_LOOP_OFFSET''"
  by (rule prefix_imp_sublist, simp)+

text \<open>
  A template whose only placeholder is the quoted loop count: none of the other tokens
  occurs in it.
\<close>

lemma other_tokens_absent:
  assumes "\<not> sublist ''EXTENSION_'' pre" and "\<not> sublist ''EXTENSION_'' post"
    and "sublist ''EXTENSION_'' tok" and "CHR 0x22 \<notin> set tok"
    and "\<not> sublist tok ''EXTENSION_LOOP_COUNT''"
  shows \<open>\<not> sublist tok (pre @ ''"EXTENSION_LOOP_COUNT"'' @ post)\<close>
proof -
  have \<open>pre @ ''"EXTENSION_LOOP_COUNT"'' @ post
          = pre @ CHR 0x22 # (''EXTENSION_LOOP_COUNT'' @ CHR 0x22 # post)\<close>
    by simp
  moreover have "\<not> sublist tok pre" "\<not> sublist tok post"
    using assms(1,2,3) by (auto dest: no_token)
  ultimately show ?thesis
    using assms(4,5) by (simp only: sublist_separator [OF assms(4)] simp_thms)
qed

lemma longer_not_sublist: "length ys < length xs \<Longrightarrow> \<not> sublist xs ys"
  using sublist_length_le by fastforce

lemma first_replacements_keep:
  assumes "\<not> sublist ''EXTENSION_'' pre" and "\<not> sublist ''EXTENSION_'' post"
  shows \<open>Replace (Replace (Replace (Replace (pre @ ''"EXTENSION_LOOP_COUNT"'' @ post)
            ''EXTENSION_TARGET_VM_TYPE'' a) ''EXTENSION_PARAMETERS_REPLACE'' b)
            ''EXTENSION_URL_REPLACE'' c) ''EXTENSION_TARGET_VM_NAME_PREFIX'' d
          = pre @ ''"EXTENSION_LOOP_COUNT"'' @ post\<close>
proof -
  have 1: \<open>\<not> sublist ''EXTENSION_TARGET_VM_TYPE'' (pre @ ''"EXTENSION_LOOP_COUNT"'' @ post)\<close>
    by (rule other_tokens_absent [OF assms tokens_have_prefix(1)])
       (simp_all add: longer_not_sublist)
  have 2: \<open>\<not> sublist ''EXTENSION_PARAMETERS_REPLACE'' (pre @ ''"EXTENSION_LOOP_COUNT"'' @ post)\<close>
    by (rule other_tokens_absent [OF assms tokens_have_prefix(2)])
       (simp_all add: longer_not_sublist)
  have 3: \<open>\<not> sublist ''EXTENSION_URL_REPLACE'' (pre @ ''"EXTENSION_LOOP_COUNT"'' @ post)\<close>
    by (rule other_tokens_absent [OF assms tokens_have_prefix(3)])
       (simp_all add: longer_not_sublist)
  have 4: \<open>\<not> sublist ''EXTENSION_TARGET_VM_NAME_PREFIX''
               (pre @ ''"EXTENSION_LOOP_COUNT"'' @ post)\<close>
    by (rule other_tokens_absent [OF assms tokens_have_prefix(4)])
       (simp_all add: longer_not_sublist)
  show ?thesis
    by (simp only: Replace_no_occurrence [OF 1] Replace_no_occurrence [OF 2]
                   Replace_no_occurrence [OF 3] Replace_no_occurrence [OF 4])
qed

lemma quoted_count_replaced:
  assumes "\<not> sublist ''EXTENSION_'' pre" and "\<not> sublist ''EXTENSION_'' post"
  shows \<open>Replace (pre @ ''"EXTENSION_LOOP_COUNT"'' @ post) ''"EXTENSION_LOOP_COUNT"'' v
          = pre @ v @ post\<close>
proof -
  have q: \<open>''"EXTENSION_LOOP_COUNT"'' = CHR 0x22 # ''EXTENSION_LOOP_COUNT'' @ [CHR 0x22]\<close>
    by simp
  have pre': \<open>\<not> sublist ''"EXTENSION_LOOP_COUNT"'' (pre @ butlast ''"EXTENSION_LOOP_COUNT"'')\<close>
  proof
    assume \<open>sublist ''"EXTENSION_LOOP_COUNT"'' (pre @ butlast ''"EXTENSION_LOOP_COUNT"'')\<close>
    then have \<open>sublist (CHR 0x22 # ''EXTENSION_LOOP_COUNT'' @ [CHR 0x22])
                       (pre @ CHR 0x22 # ''EXTENSION_LOOP_COUNT'')\<close>
      by simp
    moreover have \<open>sublist (''EXTENSION_LOOP_COUNT'' @ [CHR 0x22])
                          (CHR 0x22 # ''EXTENSION_LOOP_COUNT'' @ [CHR 0x22])\<close>
      by (rule suffix_imp_sublist) (simp add: suffix_def)
    ultimately have \<open>sublist (''EXTENSION_LOOP_COUNT'' @ [CHR 0x22])
                             (pre @ CHR 0x22 # ''EXTENSION_LOOP_COUNT'')\<close>
      by (meson sublist_order.order_trans)
    then have "sublist ''EXTENSION_LOOP_COUNT'' pre"
      by (rule sublist_closing_separator [rotated]) simp
    with assms(1) show False
      using no_token [OF tokens_have_prefix(5)] by blast
  qed
  have post': \<open>\<not> sublist ''"EXTENSION_LOOP_COUNT"'' post\<close>
  proof
    assume \<open>sublist ''"EXTENSION_LOOP_COUNT"'' post\<close>
    moreover have \<open>sublist ''EXTENSION_'' ''"EXTENSION_LOOP_COUNT"''\<close>
      by (simp add: sublist_Cons_right)
    ultimately have "sublist ''EXTENSION_'' post"
      by (meson sublist_order.order_trans)
    with assms(2) show False by simp
  qed
  have \<open>replaceAll ''"EXTENSION_LOOP_COUNT"'' v (pre @ ''"EXTENSION_LOOP_COUNT"'' @ post)
          = pre @ v @ replaceAll ''"EXTENSION_LOOP_COUNT"'' v post\<close>
    by (rule replaceAll_first_occurrence [OF _ pre']) simp
  then show ?thesis
    by (simp add: Replace_def replaceAll_no_occurrence [OF post'])
qed


lemma offset_absent_after_literal:
  assumes "\<not> sublist ''EXTENSION_'' pre" and "\<not> sublist ''EXTENSION_'' post"
    and "Atoi v \<noteq> None"
  shows "\<not> sublist ''EXTENSION_LOOP_OFFSET'' (pre @ v @ post)"
proof -
  have "set v \<inter> set ''EXTENSION_LOOP_OFFSET'' = {}"
    using Atoi_chars(2) [OF assms(3)] by (auto simp: isDigit_def)
  moreover have "v \<noteq> []" by (rule Atoi_chars(1) [OF assms(3)])
  ultimately show ?thesis
    using assms(1,2) no_token [OF tokens_have_prefix(6)]
    by (simp add: sublist_foreign_middle)
qed


lemma internalGetPoolLinkedTemplateText_literal:
  assumes \<open>getLinkedTemplateTextForURL httpGet unmarshal (ep_RootURL ep) ot (ep_Name ep)
             (ep_Version ep) (ep_URLQuery ep) = Inr (pre @ ''"EXTENSION_LOOP_COUNT"'' @ post)\<close>
    and "\<not> sublist ''EXTENSION_'' pre" and "\<not> sublist ''EXTENSION_'' post"
    and "Atoi loopCount \<noteq> None"
  shows "internalGetPoolLinkedTemplateText httpGet unmarshal vmPrefix ot loopCount loopOffset ep
           = Inr (pre @ loopCount @ post)"
  using assms(4)
  by (simp add: internalGetPoolLinkedTemplateText_def assms(1) Let_def
        first_replacements_keep [OF assms(2,3)] quoted_count_replaced [OF assms(2,3)]
        Replace_no_occurrence [OF offset_absent_after_literal [OF assms(2,3,4)]]
      del: append.simps append_assoc)


definition exampleEndpoint :: httpGet where
  \<open>exampleEndpoint url =
     (if url = ''https://example.test/extensions/hello-world/v1/supported-orchestrators.json''
      then Inr \<lparr> StatusCode = 200, Status = ''200 OK'', Body = Inr ''["Kubernetes"]'' \<rparr>
      else if url = ''https://example.test/extensions/hello-world/v1/template-link.json''
      then Inr \<lparr> StatusCode = 200, Status = ''200 OK'',
                 Body = Inr ''{"count": "EXTENSION_LOOP_COUNT"}'' \<rparr>
      else Inl (External ''no such host''))\<close>

definition exampleUnmarshal :: unmarshal where
  \<open>exampleUnmarshal bytes =
     (if bytes = ''["Kubernetes"]'' then Some [''Kubernetes''] else None)\<close>


lemma Atoi_1: "Atoi ''1'' \<noteq> None"
  by (simp add: Atoi_def isDigit_def)



subsection \<open>Failure of a resolution\<close>

text \<open>
  The resolutions that getLinkedTemplatesForExtensions asks for, in its order of
  enumeration: for every extension profile, the master's (when the master opted in), then
  one per opted-in agent pool, in pool order.
\<close>

definition poolResolutions ::
  "httpGet \<Rightarrow> unmarshal \<Rightarrow> string \<Rightarrow> ExtensionProfile \<Rightarrow> AgentPoolProfile list
     \<Rightarrow> (error + string) list" where
  "poolResolutions httpGet unmarshal orchestratorType extensionProfile pools =
     concat (map (\<lambda>pool.
        case validateProfileOptedForExtension (ep_Name extensionProfile) (ap_Extensions pool) of
          (opted, singleOrAll) \<Rightarrow>
            if opted
            then [getAgentPoolLinkedTemplateText httpGet unmarshal pool orchestratorType
                    extensionProfile singleOrAll]
            else []) pools)"

definition masterResolutions ::
  "httpGet \<Rightarrow> unmarshal \<Rightarrow> MasterProfile \<Rightarrow> string \<Rightarrow> ExtensionProfile
     \<Rightarrow> (error + string) list" where
  "masterResolutions httpGet unmarshal masterProfile orchestratorType extensionProfile =
     (case validateProfileOptedForExtension (ep_Name extensionProfile)
             (mp_Extensions masterProfile) of
        (opted, singleOrAll) \<Rightarrow>
          if opted
          then [getMasterLinkedTemplateText httpGet unmarshal masterProfile orchestratorType
                  extensionProfile singleOrAll]
          else [])"

definition resolutions ::
  "httpGet \<Rightarrow> unmarshal \<Rightarrow> MasterProfile \<Rightarrow> AgentPoolProfile list \<Rightarrow> string
     \<Rightarrow> ExtensionProfile list \<Rightarrow> (error + string) list" where
  "resolutions httpGet unmarshal masterProfile pools orchestratorType extensionProfiles =
     concat (map (\<lambda>extensionProfile.
        masterResolutions httpGet unmarshal masterProfile orchestratorType extensionProfile
        @ poolResolutions httpGet unmarshal orchestratorType extensionProfile pools)
       extensionProfiles)"

fun firstFailure :: "(error + string) list \<Rightarrow> error option" where
  "firstFailure [] = None"
| "firstFailure (Inl e # rs) = Some e"
| "firstFailure (Inr dta # rs) = firstFailure rs"

fun fragments :: "(error + string) list \<Rightarrow> string" where
  "fragments [] = []"
| "fragments (Inl e # rs) = fragments rs"
| "fragments (Inr dta # rs) = '','' @ dta @ fragments rs"

definition unreachable :: httpGet where
  "unreachable url = Inl (External ''dial tcp: lookup example.test: no such host'')"

definition kubernetes :: OrchestratorProfile where
  "kubernetes = \<lparr> op_OrchestratorType = ''Kubernetes'', op_KubernetesConfig = None \<rparr>"

definition extensionCluster :: "ExtensionProfile list \<Rightarrow> Properties" where
  "extensionCluster extensionProfiles =
     \<lparr> p_OrchestratorProfile = Some kubernetes,
       p_MasterProfile =
         Some (oneMaster \<lparr> mp_Extensions :=
                 [\<lparr> ext_Name = ''hello-world'', ext_SingleOrAll = ''single'' \<rparr>,
                  \<lparr> ext_Name = ''missing'', ext_SingleOrAll = ''All'' \<rparr>] \<rparr>),
       p_AgentPoolProfiles = [],
       p_ExtensionProfiles = extensionProfiles,
       p_CertificateProfile = None,
       p_AADProfile = None \<rparr>"

definition missingProfile :: ExtensionProfile where
  "missingProfile =
     \<lparr> ep_Name = ''missing'', ep_Version = ''v1'',
       ep_RootURL = ''https://example.test/'', ep_Script = ''missing.sh'', ep_URLQuery = [] \<rparr>"

lemma firstFailure_append:
  "firstFailure (xs @ ys)
     = (case firstFailure xs of Some e \<Rightarrow> Some e | None \<Rightarrow> firstFailure ys)"
  by (induction xs rule: firstFailure.induct) simp_all

lemma fragments_append: "fragments (xs @ ys) = fragments xs @ fragments ys"
  by (induction xs rule: fragments.induct) simp_all

lemma firstFailure_Some_iff:
  "firstFailure rs \<noteq> None \<longleftrightarrow> (\<exists>e. Inl e \<in> set rs)"
  by (induction rs rule: firstFailure.induct) auto

lemma getLinkedTemplatesForExtensions_pools_eq:
  "getLinkedTemplatesForExtensions_pools httpGet unmarshal ot ep result pools =
     (case firstFailure (poolResolutions httpGet unmarshal ot ep pools) of
        Some e \<Rightarrow> Inl (Error e)
      | None \<Rightarrow> Inr (result @ fragments (poolResolutions httpGet unmarshal ot ep pools)))"
proof (induction pools arbitrary: result)
  case Nil
  show ?case by (simp add: poolResolutions_def)
next
  case (Cons pool pools)
  have split: "poolResolutions httpGet unmarshal ot ep (pool # pools)
                 = poolResolutions httpGet unmarshal ot ep [pool]
                   @ poolResolutions httpGet unmarshal ot ep pools"
    by (simp add: poolResolutions_def)
  show ?case
    unfolding split firstFailure_append fragments_append
    by (auto simp: Cons.IH poolResolutions_def split: prod.splits sum.splits option.splits)
qed

lemma getLinkedTemplatesForExtensions_loop_eq:
  "getLinkedTemplatesForExtensions_loop httpGet unmarshal mp pools ot result eps =
     (case firstFailure (resolutions httpGet unmarshal mp pools ot eps) of
        Some e \<Rightarrow> Inl (Error e)
      | None \<Rightarrow> Inr (result @ fragments (resolutions httpGet unmarshal mp pools ot eps)))"
proof (induction eps arbitrary: result)
  case Nil
  show ?case by (simp add: resolutions_def)
next
  case (Cons ep eps)
  have split: "resolutions httpGet unmarshal mp pools ot (ep # eps)
                 = masterResolutions httpGet unmarshal mp ot ep
                   @ poolResolutions httpGet unmarshal ot ep pools
                   @ resolutions httpGet unmarshal mp pools ot eps"
    by (simp add: resolutions_def)
  show ?case
    unfolding split firstFailure_append fragments_append
    by (auto simp: Cons.IH getLinkedTemplatesForExtensions_pools_eq masterResolutions_def
             split: prod.splits sum.splits option.splits)
qed

text \<open>
  C2, as the code has it. With a master and an orchestrator profile present: when one of
  the resolutions fails, getLinkedTemplatesForExtensions returns the empty string, whatever
  the earlier resolutions produced, and writes the message of the first failure to
  standard output; the error is not part of what it returns. When none fails it writes
  nothing and returns the fragments, each after a comma.
\<close>

theorem getLinkedTemplatesForExtensions_failure:
  assumes "p_MasterProfile properties = Some masterProfile"
    and "p_OrchestratorProfile properties = Some orchestratorProfile"
    and "rs = resolutions httpGet unmarshal masterProfile (p_AgentPoolProfiles properties)
                (op_OrchestratorType orchestratorProfile) (p_ExtensionProfiles properties)"
  shows "((\<exists>e. Inl e \<in> set rs) \<longrightarrow>
            (\<exists>e. firstFailure rs = Some e \<and> Inl e \<in> set rs
                 \<and> getLinkedTemplatesForExtensions httpGet unmarshal properties
                     = Returns ([Error e], [])))
       \<and> (\<not> (\<exists>e. Inl e \<in> set rs) \<longrightarrow>
            getLinkedTemplatesForExtensions httpGet unmarshal properties
              = Returns ([], fragments rs))"
proof (intro conjI impI)
  assume "\<exists>e. Inl e \<in> set rs"
  then obtain e where e: "firstFailure rs = Some e"
    using firstFailure_Some_iff [of rs] by auto
  have "Inl e \<in> set rs"
    using e by (induction rs rule: firstFailure.induct) auto
  moreover have "getLinkedTemplatesForExtensions httpGet unmarshal properties
                   = Returns ([Error e], [])"
    using e assms
    by (simp add: getLinkedTemplatesForExtensions_def getLinkedTemplatesForExtensions_loop_eq)
  ultimately show "\<exists>e. firstFailure rs = Some e \<and> Inl e \<in> set rs
                 \<and> getLinkedTemplatesForExtensions httpGet unmarshal properties
                     = Returns ([Error e], [])"
    using e by blast
next
  assume "\<not> (\<exists>e. Inl e \<in> set rs)"
  then have "firstFailure rs = None"
    using firstFailure_Some_iff [of rs] by auto
  then show "getLinkedTemplatesForExtensions httpGet unmarshal properties
              = Returns ([], fragments rs)"
    using assms
    by (simp add: getLinkedTemplatesForExtensions_def getLinkedTemplatesForExtensions_loop_eq)
qed
lemma exampleEndpoint_hello:
  \<open>getLinkedTemplateTextForURL exampleEndpoint exampleUnmarshal (ep_RootURL helloWorldProfile)
       ''Kubernetes'' (ep_Name helloWorldProfile) (ep_Version helloWorldProfile)
       (ep_URLQuery helloWorldProfile)
     = Inr (''{"count": '' @ ''"EXTENSION_LOOP_COUNT"'' @ ''}'')\<close>
  by (simp add: getLinkedTemplateTextForURL_def orchestratorSupportsExtension_def
        getExtensionResource_def getExtensionURL_def helloWorldProfile_def
        exampleEndpoint_def exampleUnmarshal_def Let_def)

lemma exampleEndpoint_hello_single:
  \<open>getMasterLinkedTemplateText exampleEndpoint exampleUnmarshal mp ''Kubernetes''
       helloWorldProfile ''single'' = Inr ''{"count": 1}''\<close>
proof -
  have pre: \<open>\<not> sublist ''EXTENSION_'' ''{"count": ''\<close>
    by (simp add: sublist_Cons_right)
  have post: "\<not> sublist ''EXTENSION_'' ''}''"
    by (simp add: sublist_Cons_right)
  have single: "EqualFold ''single'' ''single''"
    by code_simp
  show ?thesis
    using internalGetPoolLinkedTemplateText_literal [OF exampleEndpoint_hello pre post Atoi_1]
    by (simp add: getMasterLinkedTemplateText_def single Let_def)
qed

lemma exampleEndpoint_missing:
  \<open>getMasterLinkedTemplateText exampleEndpoint exampleUnmarshal mp ''Kubernetes''
       missingProfile ''All''
     = Inl (Wrap (Wrap (External ''no such host'')
                    (''Unable to GET extension resource for extension: missing with version v1''
                     @ '' with filename supported-orchestrators.json at URL: ''
                     @ ''https://example.test/extensions/missing/v1/supported-orchestrators.json''))
              ''Extension not supported for orchestrator'')\<close>
  by (simp add: getMasterLinkedTemplateText_def internalGetPoolLinkedTemplateText_def
        getLinkedTemplateTextForURL_def orchestratorSupportsExtension_def
        getExtensionResource_def getExtensionURL_def missingProfile_def
        exampleEndpoint_def Let_def)

theorem getLinkedTemplatesForExtensions_failure_witness:
  \<open>getLinkedTemplatesForExtensions exampleEndpoint exampleUnmarshal
       (extensionCluster [helloWorldProfile, missingProfile])
     = Returns ([''Extension not supported for orchestrator: ''
                 @ ''Unable to GET extension resource for extension: missing with version v1''
                 @ '' with filename supported-orchestrators.json at URL: ''
                 @ ''https://example.test/extensions/missing/v1/supported-orchestrators.json''
                 @ '': no such host''], [])
   \<and> getLinkedTemplatesForExtensions exampleEndpoint exampleUnmarshal
       (extensionCluster [helloWorldProfile])
     = Returns ([], '',{"count": 1}'')\<close>
proof -
  let ?mp = "oneMaster \<lparr> mp_Extensions :=
                 [\<lparr> ext_Name = ''hello-world'', ext_SingleOrAll = ''single'' \<rparr>,
                  \<lparr> ext_Name = ''missing'', ext_SingleOrAll = ''All'' \<rparr>] \<rparr>"
  let ?failure = \<open>Wrap (Wrap (External ''no such host'')
                    (''Unable to GET extension resource for extension: missing with version v1''
                     @ '' with filename supported-orchestrators.json at URL: ''
                     @ ''https://example.test/extensions/missing/v1/supported-orchestrators.json''))
              ''Extension not supported for orchestrator''\<close>
  have mp: "p_MasterProfile (extensionCluster eps) = Some ?mp" for eps
    by (simp add: extensionCluster_def)
  have op: "p_OrchestratorProfile (extensionCluster eps) = Some kubernetes" for eps
    by (simp add: extensionCluster_def)
  have names: "ep_Name helloWorldProfile = ''hello-world''" "ep_Name missingProfile = ''missing''"
    by (simp_all add: helloWorldProfile_def missingProfile_def)
  have rs2: \<open>resolutions exampleEndpoint exampleUnmarshal ?mp
               (p_AgentPoolProfiles (extensionCluster [helloWorldProfile, missingProfile]))
               (op_OrchestratorType kubernetes)
               (p_ExtensionProfiles (extensionCluster [helloWorldProfile, missingProfile]))
             = [Inr ''{"count": 1}'', Inl ?failure]\<close>
    by (simp add: resolutions_def masterResolutions_def poolResolutions_def extensionCluster_def
          kubernetes_def oneMaster_def names exampleEndpoint_hello_single exampleEndpoint_missing)
  have rs1: \<open>resolutions exampleEndpoint exampleUnmarshal ?mp
               (p_AgentPoolProfiles (extensionCluster [helloWorldProfile]))
               (op_OrchestratorType kubernetes)
               (p_ExtensionProfiles (extensionCluster [helloWorldProfile]))
             = [Inr ''{"count": 1}'']\<close>
    by (simp add: resolutions_def masterResolutions_def poolResolutions_def extensionCluster_def
          kubernetes_def oneMaster_def names exampleEndpoint_hello_single)
  have a: \<open>getLinkedTemplatesForExtensions exampleEndpoint exampleUnmarshal
             (extensionCluster [helloWorldProfile, missingProfile])
           = Returns ([Error ?failure], [])\<close>
    using getLinkedTemplatesForExtensions_failure [OF mp op rs2 [symmetric]]
    by auto
  have b: \<open>getLinkedTemplatesForExtensions exampleEndpoint exampleUnmarshal
             (extensionCluster [helloWorldProfile])
           = Returns ([], '',{"count": 1}'')\<close>
    using getLinkedTemplatesForExtensions_failure [OF mp op rs1 [symmetric]]
    by auto
  from a b show ?thesis by simp
qed

text \<open>
  C2, as the claim has it: the error of a failed resolution reaches the caller. With an
  endpoint that cannot be reached and the master opted in to \<open>hello-world\<close>, the function
  returns the empty string, the same value it returns when no extension is declared; the
  error went to standard output only.
\<close>

theorem getLinkedTemplatesForExtensions_error_not_returned:
  \<open>getLinkedTemplatesForExtensions unreachable exampleUnmarshal
       (extensionCluster [helloWorldProfile])
     = Returns ([''Extension not supported for orchestrator: ''
                 @ ''Unable to GET extension resource for extension: hello-world with version v1''
                 @ '' with filename supported-orchestrators.json at URL: ''
                 @ ''https://example.test/extensions/hello-world/v1/supported-orchestrators.json''
                 @ '': dial tcp: lookup example.test: no such host''], [])
   \<and> getLinkedTemplatesForExtensions unreachable exampleUnmarshal (extensionCluster [])
     = Returns ([], [])\<close>
  by (simp add: getLinkedTemplatesForExtensions_def extensionCluster_def kubernetes_def
        oneMaster_def helloWorldProfile_def getMasterLinkedTemplateText_def
        internalGetPoolLinkedTemplateText_def getLinkedTemplateTextForURL_def
        orchestratorSupportsExtension_def getExtensionResource_def getExtensionURL_def
        unreachable_def Let_def)

end
